theory Spec2Isabelle
  imports Complex_Main "HOL-Library.Word" "HOL-Library.Signed_Division" "HOL-Library.Log_Nat"
    "HOL-Library.Sublist"
begin

section \<open>Go runtime and standard library: what \<open>push.go\<close> relies on\<close>

subsection \<open>\<open>float64\<close> arithmetic\<close>

text \<open>
  \<open>humanReadableDuration\<close> computes \<open>int(duration.Seconds())\<close>, and
  \<open>time.Duration.Seconds\<close> is
  \<^verbatim>\<open>
  func (d Duration) Seconds() float64 {
      sec := d / Second
      nsec := d % Second
      return float64(sec) + float64(nsec)/1e9
  }
  \<close>
  A finite \<open>float64\<close> is modelled by the rational number it denotes. An operation is the
  exact operation followed by IEEE 754 rounding to nearest, ties to even, onto 53
  significant bits (subnormals below \<open>2^-1022\<close> keep the quantum \<open>2^-1074\<close>). Overflow to
  an infinity is not modelled: every value computed below is smaller than \<open>2^35\<close> in
  magnitude.
\<close>

definition float64_exponent :: "rat \<Rightarrow> int" where
  \<comment> \<open>for \<open>x > 0\<close>: the \<open>e\<close> with \<open>2^e \<le> x < 2^(e+1)\<close>\<close>
  "float64_exponent x =
     (let (a, b) = quotient_of x; d = bitlen a - bitlen b
      in if 2 powi d \<le> x then d else d - 1)"

definition round_half_even :: "rat \<Rightarrow> int" where
  "round_half_even y =
     (let f = \<lfloor>y\<rfloor>; r = y - of_int f
      in if r < 1 / 2 then f
         else if 1 / 2 < r then f + 1
         else if even f then f else f + 1)"

definition float64_quantum :: "rat \<Rightarrow> rat" where
  \<comment> \<open>the spacing of the \<open>float64\<close> values around \<open>x > 0\<close>\<close>
  "float64_quantum x = 2 powi (max (float64_exponent x) (- 1022) - 52)"

definition float64_round :: "rat \<Rightarrow> rat" where
  "float64_round x =
     (if x = 0 then 0
      else let q = float64_quantum \<bar>x\<bar>
           in sgn x * (of_int (round_half_even (\<bar>x\<bar> / q)) * q))"

definition float64_of_int :: "int \<Rightarrow> rat" where
  \<comment> \<open>the conversion \<open>float64(i)\<close>\<close>
  "float64_of_int i = float64_round (of_int i)"

definition float64_add :: "rat \<Rightarrow> rat \<Rightarrow> rat" where
  "float64_add x y = float64_round (x + y)"

definition float64_div :: "rat \<Rightarrow> rat \<Rightarrow> rat" where
  \<comment> \<open>only used with the non-zero constant divisor \<open>1e9\<close>\<close>
  "float64_div x y = float64_round (x / y)"

definition int_of_float64 :: "rat \<Rightarrow> int" where
  \<comment> \<open>the conversion \<open>int(f)\<close>: the fraction is discarded (truncation towards zero);
      \<open>int\<close> is 64 bits wide (amd64, arm64) and every value converted below fits\<close>
  "int_of_float64 x = (if 0 \<le> x then \<lfloor>x\<rfloor> else \<lceil>x\<rceil>)"

subsection \<open>\<open>time.Duration\<close>\<close>

type_synonym Duration = "64 word"
  \<comment> \<open>\<open>type Duration int64\<close>: a signed count of nanoseconds, read with \<open>sint\<close>\<close>

definition Second :: int where
  "Second = 1000000000"

definition Duration_Seconds :: "Duration \<Rightarrow> rat" where
  "Duration_Seconds d =
     (let sec = sint d sdiv Second;
          nsec = sint d smod Second
      in float64_add (float64_of_int sec) (float64_div (float64_of_int nsec) 1000000000))"

subsection \<open>\<open>fmt\<close> and \<open>strings\<close>\<close>

definition digit_char :: "nat \<Rightarrow> char" where
  "digit_char n = ''0123456789'' ! n"

function nat_to_dec :: "nat \<Rightarrow> string" where
  "nat_to_dec n =
     (if n < 10 then [digit_char n] else nat_to_dec (n div 10) @ [digit_char (n mod 10)])"
  by pat_completeness auto
termination
  by (relation "measure (\<lambda>n. n)") auto

definition fmt_d :: "int \<Rightarrow> string" where
  \<comment> \<open>the verb \<open>%d\<close> of \<open>fmt.Sprintf\<close> on an \<open>int\<close>\<close>
  "fmt_d i = (if i < 0 then CHR ''-'' # nat_to_dec (nat (- i)) else nat_to_dec (nat i))"

fun strings_Join :: "string list \<Rightarrow> string \<Rightarrow> string" where
  "strings_Join [] sep = []"
| "strings_Join [x] sep = x"
| "strings_Join (x # y # ys) sep = x @ sep @ strings_Join (y # ys) sep"

section \<open>\<open>humanReadableDuration\<close>\<close>

definition humanReadableDuration_components :: "int \<Rightarrow> int \<times> int \<times> int" where
  \<comment> \<open>the locals \<open>(hours, minutes, seconds)\<close> after the nested \<open>if\<close>, from the initial
      value of \<open>seconds\<close>\<close>
  "humanReadableDuration_components seconds0 =
     (if 60 \<le> seconds0 then
        (let minutes = seconds0 sdiv 60;
             seconds = seconds0 smod 60
         in if 60 \<le> minutes then (minutes sdiv 60, minutes smod 60, seconds)
            else (0, minutes, seconds))
      else (0, 0, seconds0))"

definition humanReadableDuration_parts :: "int \<times> int \<times> int \<Rightarrow> string list" where
  \<comment> \<open>the slice \<open>parts\<close> after the three conditional appends\<close>
  "humanReadableDuration_parts c =
     (case c of (hours, minutes, seconds) \<Rightarrow>
        (let parts = [];
             parts = (if 0 < hours then parts @ [fmt_d hours @ '' h''] else parts);
             parts = (if 0 < minutes then parts @ [fmt_d minutes @ '' min''] else parts);
             parts = (if 0 < seconds then parts @ [fmt_d seconds @ '' sec''] else parts)
         in parts))"

definition humanReadableDuration :: "Duration \<Rightarrow> string" where
  "humanReadableDuration duration =
     (if sint duration < Second then ''less than a second''
      else strings_Join
             (humanReadableDuration_parts
                (humanReadableDuration_components (int_of_float64 (Duration_Seconds duration))))
             '' '')"

section \<open>Collaborators outside the two source files\<close>

datatype error = Error string
  \<comment> \<open>a non-nil Go \<open>error\<close>, with its message; \<open>nil\<close> is \<open>None\<close> in an \<open>error option\<close>\<close>

text \<open>
  Modelled from the spec: package \<open>cf\<close> of this repository is not among the sources. The spec
  names its cleanup settings \<open>{Always, Never, OnSuccess}\<close> and its output types
  \<open>{JSON, YAML, None}\<close>, where "none" is the sentinel \<open>-1\<close> that \<open>push.go\<close> converts to the
  type. Both are integer types in Go, so a further constructor carries every integer that
  is not one of the named constants.
\<close>

datatype AppCleanupSetting = Always | Never | OnSuccess | AppCleanupSetting_of int

datatype OutputType = JSON | YAML | OutputType_of int

text \<open>
  Modelled from the spec: \<open>cf.PushReport\<close> is "consumed only for read-only accessors (elapsed
  time, per-phase durations, stack, buildpack)" and serialised by \<open>ToJSON\<close> and \<open>ToYAML\<close>,
  which return bytes or an error. A report is the record of what each method returns;
  the pointer handed to \<open>summaryPrintout\<close> is taken to be non-nil.
\<close>

record PushReport =
  ElapsedTime :: Duration
  Stack :: string
  Buildpack :: string
  HasTimeDetails :: bool
  InitTime :: Duration
  CreatingTime :: Duration
  UploadingTime :: Duration
  StagingTime :: Duration
  StartingTime :: Duration
  ToJSON :: "error + string"
  ToYAML :: "error + string"

text \<open>
  What a run does to the outside world, in order. \<open>Stdout\<close> carries the text handed to
  \<open>bunt.Printf\<close> or \<open>bunt.Println\<close> after \<open>fmt\<close> has filled in the verbs (\<open>bunt\<close> then turns
  markers such as \<open>*bold*\<close> and \<open>CadetBlue{...}\<close> into terminal escape sequences, which is not
  modelled). The other events are the calls into collaborators: the random name
  generator, the asset function of a sample app, \<open>cf.PushApp\<close> and \<open>ExitGonut\<close>.
\<close>

datatype 'dir event =
    Stdout string
  | Call_RandomStringWithPrefix string int
  | Call_assetFunc string
  | Call_PushApp string string 'dir AppCleanupSetting
  | Call_ExitGonut error

definition unicode_ToLower :: "char \<Rightarrow> char" where
  "unicode_ToLower c =
     (let n = (of_char c :: nat) in if 65 \<le> n \<and> n \<le> 90 then char_of (n + 32) else c)"

definition strings_ToLower :: "string \<Rightarrow> string" where
  \<comment> \<open>\<open>strings.ToLower\<close> on the bytes of an ASCII string. On other strings Go decodes UTF-8
      and maps runes; the only runes that become ASCII letters there are U+0130 (to \<open>i\<close>)
      and U+212A (to \<open>k\<close>), so no such string lowers to \<open>json\<close> or \<open>yaml\<close>, here or in Go.\<close>
  "strings_ToLower s = map unicode_ToLower s"

definition text_RandomStringWithPrefix :: "(int \<Rightarrow> string) \<Rightarrow> string \<Rightarrow> int \<Rightarrow> string" where
  \<comment> \<open>\<open>gonvenience/text\<close>: the prefix followed by random characters up to the given total
      length; \<open>RandomString\<close>, the random source, is a parameter\<close>
  "text_RandomStringWithPrefix RandomString pfx len =
     pfx @ RandomString (len - int (length pfx))"

section \<open>\<open>push.go\<close>\<close>

definition GonutAppPrefix :: string where
  "GonutAppPrefix = ''gonut''"

record 'dir sampleApp =
  caption :: string
  command :: string
  aliases :: "string list"
  appNamePrefix :: string
  assetFunc :: "unit \<Rightarrow> error + 'dir"

text \<open>
  \<open>assets.Provider\<close> is generated code that is not among the sources; the seven asset
  functions are taken as a parameter.
\<close>

record 'dir Provider =
  GoSampleApp :: "unit \<Rightarrow> error + 'dir"
  PythonSampleApp :: "unit \<Rightarrow> error + 'dir"
  PHPSampleApp :: "unit \<Rightarrow> error + 'dir"
  StaticfileSampleApp :: "unit \<Rightarrow> error + 'dir"
  SwiftSampleApp :: "unit \<Rightarrow> error + 'dir"
  NodeJSSampleApp :: "unit \<Rightarrow> error + 'dir"
  RubySampleApp :: "unit \<Rightarrow> error + 'dir"

definition sampleApps :: "'dir Provider \<Rightarrow> 'dir sampleApp list" where
  "sampleApps provider =
     [ \<lparr> caption = ''Golang'', command = ''golang'', aliases = [''go''],
         appNamePrefix = GonutAppPrefix @ ''-golang-app-'',
         assetFunc = GoSampleApp provider \<rparr>,
       \<lparr> caption = ''Python'', command = ''python'', aliases = [],
         appNamePrefix = GonutAppPrefix @ ''-python-app-'',
         assetFunc = PythonSampleApp provider \<rparr>,
       \<lparr> caption = ''PHP'', command = ''php'', aliases = [],
         appNamePrefix = GonutAppPrefix @ ''-php-app-'',
         assetFunc = PHPSampleApp provider \<rparr>,
       \<lparr> caption = ''Staticfile'', command = ''staticfile'', aliases = [''static''],
         appNamePrefix = GonutAppPrefix @ ''-staticfile-app-'',
         assetFunc = StaticfileSampleApp provider \<rparr>,
       \<lparr> caption = ''Swift'', command = ''swift'', aliases = [],
         appNamePrefix = GonutAppPrefix @ ''-swift-app-'',
         assetFunc = SwiftSampleApp provider \<rparr>,
       \<lparr> caption = ''NodeJS'', command = ''nodejs'', aliases = [''node''],
         appNamePrefix = GonutAppPrefix @ ''-nodejs-app-'',
         assetFunc = NodeJSSampleApp provider \<rparr>,
       \<lparr> caption = ''Ruby'', command = ''ruby'', aliases = [],
         appNamePrefix = GonutAppPrefix @ ''-ruby-sinatra-app-'',
         assetFunc = RubySampleApp provider \<rparr> ]"

definition mapDeleteSetting :: "string \<Rightarrow> AppCleanupSetting \<times> error option" where
  "mapDeleteSetting deleteSetting =
     (if deleteSetting = ''always'' then (Always, None)
      else if deleteSetting = ''never'' then (Never, None)
      else if deleteSetting = ''on-success'' then (OnSuccess, None)
      else (AppCleanupSetting_of (- 1),
            Some (Error (''unsupported delete setting: '' @ deleteSetting))))"

definition mapOutputSetting :: "string \<Rightarrow> OutputType \<times> error option" where
  "mapOutputSetting outputSetting =
     (let lowered = strings_ToLower outputSetting
      in if lowered = ''json'' then (JSON, None)
         else if lowered = ''yaml'' then (YAML, None)
         else (OutputType_of (- 1), None))"

definition summaryPrintout ::
  "(string \<Rightarrow> string \<Rightarrow> string \<Rightarrow> error + string) \<Rightarrow>
   string \<Rightarrow> PushReport \<Rightarrow> string \<Rightarrow> OutputType \<Rightarrow> string list \<times> error option" where
  \<comment> \<open>\<open>json_Indent src prefix indent\<close> stands for \<open>json.Indent(&buffer, src, prefix, indent)\<close>:
      an error, or the bytes left in the buffer. The result is the list of texts printed,
      in order, and the error returned.\<close>
  "summaryPrintout json_Indent appCaption report summarySetting outputType =
     (if summarySetting = ''short'' \<or> summarySetting = ''oneline'' then
        ([''Successfully pushed *'' @ appCaption @ ''* sample app in CadetBlue{''
            @ humanReadableDuration (ElapsedTime report) @ ''}.\<newline>''], None)
      else if summarySetting = ''full'' then
        (case outputType of
           JSON \<Rightarrow>
             (case ToJSON report of
                Inl err \<Rightarrow> ([], Some err)
              | Inr output \<Rightarrow>
                  (case json_Indent output [] ''   '' of
                     Inl indentError \<Rightarrow> ([], Some indentError)
                   | Inr buffer \<Rightarrow> ([buffer @ ''\<newline>''], None)))
         | YAML \<Rightarrow>
             (case ToYAML report of
                Inl err \<Rightarrow> ([], Some err)
              | Inr output \<Rightarrow> ([output @ ''\<newline>''], None))
         | OutputType_of other \<Rightarrow>
             ([''Successfully pushed *'' @ appCaption @ ''* sample app in CadetBlue{''
                 @ humanReadableDuration (ElapsedTime report) @ ''}:\<newline>'',
               ''     DimGray{_stack:_} DarkSeaGreen{'' @ Stack report @ ''}\<newline>'',
               '' DimGray{_buildpack:_} DarkSeaGreen{'' @ Buildpack report @ ''}\<newline>'']
              @ (if HasTimeDetails report then
                   [''   DimGray{_ramp-up:_} SteelBlue{''
                      @ humanReadableDuration (InitTime report) @ ''}\<newline>'',
                    ''  DimGray{_creating:_} SteelBlue{''
                      @ humanReadableDuration (CreatingTime report) @ ''}\<newline>'',
                    '' DimGray{_uploading:_} SteelBlue{''
                      @ humanReadableDuration (UploadingTime report) @ ''}\<newline>'',
                    ''   DimGray{_staging:_} SteelBlue{''
                      @ humanReadableDuration (StagingTime report) @ ''}\<newline>'',
                    ''  DimGray{_starting:_} SteelBlue{''
                      @ humanReadableDuration (StartingTime report) @ ''}\<newline>'']
                 else [])
              @ [''\<newline>''], None))
      else ([], None))"

text \<open>
  The package variables \<open>deleteSetting\<close>, \<open>summarySetting\<close> and \<open>outputSetting\<close>, set once
  from the command line flags, together with the collaborators a push calls:
  \<open>json.Indent\<close>, the random source behind \<open>text.RandomStringWithPrefix\<close>, and
  \<open>cf.PushApp\<close>, which returns a report or an error.
\<close>

record 'dir env =
  deleteSetting :: string
  summarySetting :: string
  outputSetting :: string
  json_Indent :: "string \<Rightarrow> string \<Rightarrow> string \<Rightarrow> error + string"
  RandomString :: "int \<Rightarrow> string"
  cf_PushApp :: "string \<Rightarrow> string \<Rightarrow> 'dir \<Rightarrow> AppCleanupSetting \<Rightarrow> error + PushReport"

definition runSampleAppPush :: "'dir env \<Rightarrow> 'dir sampleApp \<Rightarrow> 'dir event list \<times> error option" where
  \<comment> \<open>the events of the run, in order, and the error returned\<close>
  "runSampleAppPush env app =
     (case mapDeleteSetting (deleteSetting env) of
        (cleanupSetting, Some err) \<Rightarrow> ([], Some err)
      | (cleanupSetting, None) \<Rightarrow>
     (case mapOutputSetting (outputSetting env) of
        (outputType, Some err) \<Rightarrow> ([], Some err)
      | (outputType, None) \<Rightarrow>
     (let appName = text_RandomStringWithPrefix (RandomString env) (appNamePrefix app) 32;
          trace = [Call_RandomStringWithPrefix (appNamePrefix app) 32,
                   Call_assetFunc (caption app)]
      in case assetFunc app () of
           Inl err \<Rightarrow> (trace, Some err)
         | Inr directory \<Rightarrow>
     (let trace = trace @ [Call_PushApp (caption app) appName directory cleanupSetting]
      in case cf_PushApp env (caption app) appName directory cleanupSetting of
           Inl err \<Rightarrow> (trace, Some err)
         | Inr report \<Rightarrow>
     (case summaryPrintout (json_Indent env) (caption app) report (summarySetting env) outputType of
        (printed, result) \<Rightarrow> (trace @ map Stdout printed, result))))))"

datatype outcome = Returned | Exited error

definition ExitGonut :: "error \<Rightarrow> 'dir event list \<times> outcome" where
  \<comment> \<open>Modelled from the spec: \<open>ExitGonut\<close> is defined in a file of package \<open>cmd\<close> that is not
      among the sources. The spec calls it "a process-wide termination routine": errors
      "cause immediate process termination with a message", so the call does not return.\<close>
  "ExitGonut err = ([Call_ExitGonut err], Exited err)"

fun pushAll_loop :: "'dir env \<Rightarrow> 'dir sampleApp list \<Rightarrow> 'dir event list \<times> outcome" where
  \<comment> \<open>the \<open>for ... range sampleApps\<close> loop in the \<open>Run\<close> function of the \<open>all\<close> command\<close>
  "pushAll_loop env [] = ([], Returned)"
| "pushAll_loop env (app # rest) =
     (case runSampleAppPush env app of
        (trace, Some err) \<Rightarrow>
          (case ExitGonut err of
             (trace', Exited e) \<Rightarrow> (trace @ trace', Exited e)
           | (trace', Returned) \<Rightarrow>
               (case pushAll_loop env rest of (trace'', out) \<Rightarrow> (trace @ trace' @ trace'', out)))
      | (trace, None) \<Rightarrow>
          (case pushAll_loop env rest of (trace', out) \<Rightarrow> (trace @ trace', out)))"

definition pushAll_Run :: "'dir Provider \<Rightarrow> 'dir env \<Rightarrow> 'dir event list \<times> outcome" where
  "pushAll_Run provider env = pushAll_loop env (sampleApps provider)"

definition omit_zero_components :: "int \<times> int \<times> int \<Rightarrow> string" where
  \<comment> \<open>the spec's wording of the duration string: each component with its unit, separated by
      blanks, "zero-valued components are omitted"\<close>
  "omit_zero_components c =
     (case c of (hours, minutes, seconds) \<Rightarrow>
        strings_Join
          (map (\<lambda>(v, unit). fmt_d v @ unit)
             (filter (\<lambda>(v, unit). v \<noteq> 0)
                [(hours, '' h''), (minutes, '' min''), (seconds, '' sec'')]))
          '' '')"

section \<open>The report texts and the generated name, for the statements below\<close>

definition oneline_summary :: "string \<Rightarrow> PushReport \<Rightarrow> string" where
  \<comment> \<open>the one-line success summary with the human-readable elapsed time\<close>
  "oneline_summary appCaption report =
     ''Successfully pushed *'' @ appCaption @ ''* sample app in CadetBlue{''
       @ humanReadableDuration (ElapsedTime report) @ ''}.\<newline>''"

definition phase_timings :: "PushReport \<Rightarrow> string list" where
  \<comment> \<open>the five per-phase lines of the multi-line report\<close>
  "phase_timings report =
     [''   DimGray{_ramp-up:_} SteelBlue{'' @ humanReadableDuration (InitTime report) @ ''}\<newline>'',
      ''  DimGray{_creating:_} SteelBlue{'' @ humanReadableDuration (CreatingTime report) @ ''}\<newline>'',
      '' DimGray{_uploading:_} SteelBlue{'' @ humanReadableDuration (UploadingTime report) @ ''}\<newline>'',
      ''   DimGray{_staging:_} SteelBlue{'' @ humanReadableDuration (StagingTime report) @ ''}\<newline>'',
      ''  DimGray{_starting:_} SteelBlue{'' @ humanReadableDuration (StartingTime report) @ ''}\<newline>'']"

definition human_report :: "string \<Rightarrow> PushReport \<Rightarrow> string list" where
  \<comment> \<open>the multi-line human report, with per-phase timings only when the report has time
      details\<close>
  "human_report appCaption report =
     [''Successfully pushed *'' @ appCaption @ ''* sample app in CadetBlue{''
        @ humanReadableDuration (ElapsedTime report) @ ''}:\<newline>'',
      ''     DimGray{_stack:_} DarkSeaGreen{'' @ Stack report @ ''}\<newline>'',
      '' DimGray{_buildpack:_} DarkSeaGreen{'' @ Buildpack report @ ''}\<newline>'']
     @ (if HasTimeDetails report then phase_timings report else [])
     @ [''\<newline>'']"

definition generated_appName :: "'dir env \<Rightarrow> 'dir sampleApp \<Rightarrow> string" where
  \<comment> \<open>the value of the local \<open>appName\<close> in \<open>runSampleAppPush\<close>\<close>
  "generated_appName env app =
     text_RandomStringWithPrefix (RandomString env) (appNamePrefix app) 32"

section \<open>Concrete collaborators for the examples\<close>

definition example_Indent :: "string \<Rightarrow> string \<Rightarrow> string \<Rightarrow> error + string" where
  \<comment> \<open>a stand-in for \<open>json.Indent\<close> in examples: it accepts every input and leaves it as it is\<close>
  "example_Indent src pfx indent = Inr src"

definition example_report :: PushReport where
  \<comment> \<open>a report whose JSON serialisation fails\<close>
  "example_report =
     \<lparr> ElapsedTime = 90000000000, Stack = ''cflinuxfs3'', Buildpack = ''go_buildpack'',
       HasTimeDetails = False, InitTime = 0, CreatingTime = 0, UploadingTime = 0,
       StagingTime = 0, StartingTime = 0,
       ToJSON = Inl (Error ''json: unsupported value''),
       ToYAML = Inr ''stack: cflinuxfs3'' \<rparr>"

definition example_RandomString :: "int \<Rightarrow> string" where
  \<comment> \<open>a random source for examples that always draws the letter \<open>x\<close>\<close>
  "example_RandomString n = replicate (nat n) CHR ''x''"

definition example_asset :: "string \<Rightarrow> unit \<Rightarrow> error + string" where
  "example_asset dir u = Inr dir"

definition example_asset_missing :: "unit \<Rightarrow> error + string" where
  "example_asset_missing u = Inl (Error ''asset not found'')"

definition example_provider :: "string Provider" where
  \<comment> \<open>asset functions for examples: directories are named by strings, and the PHP sample
      app cannot be produced\<close>
  "example_provider =
     \<lparr> GoSampleApp = example_asset ''go'', PythonSampleApp = example_asset ''python'',
       PHPSampleApp = example_asset_missing, StaticfileSampleApp = example_asset ''static'',
       SwiftSampleApp = example_asset ''swift'', NodeJSSampleApp = example_asset ''nodejs'',
       RubySampleApp = example_asset ''ruby'' \<rparr>"

definition example_PushApp :: "string \<Rightarrow> string \<Rightarrow> string \<Rightarrow> AppCleanupSetting \<Rightarrow> error + PushReport" where
  "example_PushApp cap appName directory cleanupSetting = Inr example_report"

definition example_PushApp_unreachable ::
  "string \<Rightarrow> string \<Rightarrow> string \<Rightarrow> AppCleanupSetting \<Rightarrow> error + PushReport" where
  "example_PushApp_unreachable cap appName directory cleanupSetting = Inl (Error ''api unreachable'')"

definition example_env :: "string env" where
  "example_env =
     \<lparr> deleteSetting = ''always'', summarySetting = ''short'', outputSetting = [],
       json_Indent = example_Indent, RandomString = example_RandomString,
       cf_PushApp = example_PushApp \<rparr>"

section \<open>Rounding to \<open>float64\<close>\<close>

declare nat_to_dec.simps [simp del]

lemma two_powi_le_iff: "(2::rat) powi m \<le> 2 powi n \<longleftrightarrow> m \<le> n"
  by (metis power_int_increasing power_int_strict_increasing not_le one_le_numeral one_less_numeral_iff semiring_norm(76) leD)

lemma float64_exponent_le:
  assumes "0 < x"
  shows "2 powi (float64_exponent x) \<le> x"
proof -
  obtain a b where ab: "quotient_of x = (a, b)" by (cases "quotient_of x")
  have b: "0 < b" using ab by (rule quotient_of_denom_pos)
  have x: "x = of_int a / of_int b" using ab by (rule quotient_of_div)
  have a: "0 < a" using assms b x by (simp add: zero_less_divide_iff)
  have la: "(2::rat) powi (bitlen a - 1) \<le> of_int a"
  proof -
    have "(2::int) ^ nat (bitlen a - 1) \<le> a" using bitlen_bounds[OF a] by simp
    then have "(of_int ((2::int) ^ nat (bitlen a - 1)) :: rat) \<le> of_int a" by (simp only: of_int_le_iff)
    moreover have "1 \<le> bitlen a" using a bitlen_eq_zero_iff[of a] bitlen_nonneg[of a] by linarith
    ultimately show ?thesis by (simp add: power_int_def)
  qed
  have lb: "of_int b < (2::rat) powi (bitlen b)"
  proof -
    have "b < (2::int) ^ nat (bitlen b)" using bitlen_bounds[OF b] by simp
    then have "(of_int b :: rat) < of_int ((2::int) ^ nat (bitlen b))" by (simp only: of_int_less_iff)
    then show ?thesis using bitlen_nonneg[of b] by (simp add: power_int_def)
  qed
  have "(2::rat) powi (bitlen a - bitlen b - 1) = 2 powi (bitlen a - 1) / 2 powi (bitlen b)"
    by (simp add: power_int_diff)
  also have "\<dots> \<le> of_int a / 2 powi (bitlen b)"
    using la by (simp add: divide_right_mono)
  also have "\<dots> \<le> of_int a / of_int b"
    using lb a b by (simp add: frac_le)
  finally have low: "(2::rat) powi (bitlen a - bitlen b - 1) \<le> x" using x by simp
  show ?thesis
    using low by (simp add: float64_exponent_def ab Let_def)
qed

lemma float64_exponent_gt:
  assumes "0 < x"
  shows "x < 2 powi (float64_exponent x + 1)"
proof -
  obtain a b where ab: "quotient_of x = (a, b)" by (cases "quotient_of x")
  have b: "0 < b" using ab by (rule quotient_of_denom_pos)
  have x: "x = of_int a / of_int b" using ab by (rule quotient_of_div)
  have a: "0 < a" using assms b x by (simp add: zero_less_divide_iff)
  have la: "of_int a < (2::rat) powi (bitlen a)"
  proof -
    have "a < (2::int) ^ nat (bitlen a)" using bitlen_bounds[OF a] by simp
    then have "(of_int a :: rat) < of_int ((2::int) ^ nat (bitlen a))" by (simp only: of_int_less_iff)
    then show ?thesis using bitlen_nonneg[of a] by (simp add: power_int_def)
  qed
  have lb: "(2::rat) powi (bitlen b - 1) \<le> of_int b"
  proof -
    have "(2::int) ^ nat (bitlen b - 1) \<le> b" using bitlen_bounds[OF b] by simp
    then have "(of_int ((2::int) ^ nat (bitlen b - 1)) :: rat) \<le> of_int b" by (simp only: of_int_le_iff)
    moreover have "1 \<le> bitlen b" using b bitlen_eq_zero_iff[of b] bitlen_nonneg[of b] by linarith
    ultimately show ?thesis by (simp add: power_int_def)
  qed
  have "x = of_int a / of_int b" by (rule x)
  also have "\<dots> \<le> of_int a / 2 powi (bitlen b - 1)"
    using lb a by (simp add: frac_le)
  also have "\<dots> < 2 powi (bitlen a) / 2 powi (bitlen b - 1)"
    using la by (simp add: divide_strict_right_mono)
  also have "\<dots> = 2 powi (bitlen a - bitlen b + 1)"
    by (simp add: power_int_diff power_int_add)
  finally have up: "x < 2 powi (bitlen a - bitlen b + 1)" .
  show ?thesis
    using up by (simp add: float64_exponent_def ab Let_def not_le)
qed

lemma round_half_even_bounds: "\<lfloor>y\<rfloor> \<le> round_half_even y \<and> round_half_even y \<le> \<lceil>y\<rceil>"
proof -
  have "y - of_int \<lfloor>y\<rfloor> = 0 \<or> \<lfloor>y\<rfloor> + 1 \<le> \<lceil>y\<rceil>"
    by (metis add.commute ceiling_altdef diff_self eq_iff_diff_eq_0 order_refl)
  then show ?thesis
    by (auto simp: round_half_even_def Let_def)
qed

lemma round_half_even_error: "\<bar>of_int (round_half_even y) - y\<bar> \<le> 1 / 2"
proof -
  have "of_int \<lfloor>y\<rfloor> \<le> y" "y < of_int \<lfloor>y\<rfloor> + 1" by linarith+
  then show ?thesis
    by (auto simp: round_half_even_def Let_def abs_le_iff)
qed

lemma round_half_even_of_int: "round_half_even (of_int i) = i"
  by (simp add: round_half_even_def)

lemma float64_exponent_less:
  assumes "0 < x" "x < 2 powi k"
  shows "float64_exponent x < k"
proof -
  have "(2::rat) powi (float64_exponent x) < 2 powi k"
    using float64_exponent_le[OF assms(1)] assms(2) by linarith
  then show ?thesis
    using two_powi_le_iff[of k "float64_exponent x"] by linarith
qed

lemma float64_quantum_pos: "0 < float64_quantum x"
  by (simp add: float64_quantum_def)

lemma float64_quantum_le:
  assumes "0 < x" "x < 2 powi k" "- 1022 < k"
  shows "float64_quantum x \<le> 2 powi (k - 53)"
proof -
  have "max (float64_exponent x) (- 1022) - 52 \<le> k - 53"
    using float64_exponent_less[OF assms(1,2)] assms(3) by simp
  then show ?thesis
    unfolding float64_quantum_def by (simp only: two_powi_le_iff)
qed

lemma float64_quantum_inverse_power:
  assumes "0 < x" "x < 2 ^ 53"
  shows "\<exists>n::nat. float64_quantum x = 1 / 2 ^ n"
proof -
  have "x < 2 powi 53" using assms(2) by simp
  then have "float64_exponent x < 53" using assms(1) by (rule float64_exponent_less[rotated])
  then have le: "max (float64_exponent x) (- 1022) - 52 \<le> 0" by simp
  define m where "m = max (float64_exponent x) (- 1022) - 52"
  have "(2::rat) powi m = 1 / 2 ^ nat (- m)"
    using le unfolding m_def[symmetric]
    by (cases "m = 0") (simp_all add: power_int_def field_simps power_inverse)
  then show ?thesis unfolding float64_quantum_def m_def[symmetric] by blast
qed

lemma float64_round_between_ints:
  assumes "0 < x" "x < 2 ^ 53" "of_int i \<le> x" "x \<le> of_int j"
  shows "of_int i \<le> float64_round x \<and> float64_round x \<le> of_int j"
proof -
  obtain n :: nat where q: "float64_quantum x = 1 / 2 ^ n"
    using float64_quantum_inverse_power[OF assms(1,2)] by blast
  let ?y = "x * 2 ^ n"
  have r: "float64_round x = of_int (round_half_even ?y) / 2 ^ n"
    using assms(1) by (simp add: float64_round_def Let_def q)
  have "(of_int (i * 2 ^ n) :: rat) \<le> ?y" using assms(3) by simp
  then have "i * 2 ^ n \<le> \<lfloor>?y\<rfloor>" by (simp only: le_floor_iff)
  then have lo: "i * 2 ^ n \<le> round_half_even ?y"
    using round_half_even_bounds[of ?y] by linarith
  have "?y \<le> of_int (j * 2 ^ n)" using assms(4) by simp
  then have "\<lceil>?y\<rceil> \<le> j * 2 ^ n" by (simp only: ceiling_le_iff)
  then have hi: "round_half_even ?y \<le> j * 2 ^ n"
    using round_half_even_bounds[of ?y] by linarith
  have "(of_int (i * 2 ^ n) :: rat) \<le> of_int (round_half_even ?y)"
    using lo by (simp only: of_int_le_iff)
  then have 1: "of_int i \<le> float64_round x"
    by (simp add: r pos_le_divide_eq)
  have "(of_int (round_half_even ?y) :: rat) \<le> of_int (j * 2 ^ n)"
    using hi by (simp only: of_int_le_iff)
  then have 2: "float64_round x \<le> of_int j"
    by (simp add: r pos_divide_le_eq)
  show ?thesis using 1 2 by simp
qed

lemma float64_round_error:
  assumes "0 < x"
  shows "\<bar>float64_round x - x\<bar> \<le> float64_quantum x / 2"
proof -
  let ?q = "float64_quantum x"
  have q: "0 < ?q" by (rule float64_quantum_pos)
  have r: "float64_round x = of_int (round_half_even (x / ?q)) * ?q"
    using assms by (simp add: float64_round_def Let_def)
  have "float64_round x - x = (of_int (round_half_even (x / ?q)) - x / ?q) * ?q"
    using q by (simp add: r field_simps)
  then have "\<bar>float64_round x - x\<bar> = \<bar>of_int (round_half_even (x / ?q)) - x / ?q\<bar> * ?q"
    using q by (simp add: abs_mult)
  also have "\<dots> \<le> (1 / 2) * ?q"
    using round_half_even_error[of "x / ?q"] q by (simp only: mult_right_mono less_imp_le)
  finally show ?thesis by simp
qed

lemma float64_round_of_int:
  assumes "\<bar>i\<bar> < 2 ^ 53"
  shows "float64_round (of_int i) = of_int i"
proof -
  have pos: "float64_round (of_int k) = of_int k" if "0 < k" "k < 2 ^ 53" for k :: int
  proof -
    have "(of_int k :: rat) < of_int (2 ^ 53)" using that(2) by (simp only: of_int_less_iff)
    then have "(of_int k :: rat) < 2 ^ 53" by simp
    then show ?thesis
      using float64_round_between_ints[of "of_int k" k k] that(1) by simp
  qed
  consider "i = 0" | "0 < i" | "i < 0" by linarith
  then show ?thesis
  proof cases
    case 1 then show ?thesis by (simp add: float64_round_def)
  next
    case 2 then show ?thesis using pos[of i] assms by simp
  next
    case 3
    then have "float64_round (of_int (- i)) = of_int (- i)" using pos[of "- i"] assms by simp
    then show ?thesis using 3 by (simp add: float64_round_def Let_def)
  qed
qed

lemma sdiv_nonneg_eq: "0 \<le> a \<Longrightarrow> 0 < b \<Longrightarrow> (a::int) sdiv b = a div b"
  by (simp add: signed_divide_int_def sgn_if)

lemma smod_nonneg_eq: "0 \<le> a \<Longrightarrow> 0 < b \<Longrightarrow> (a::int) smod b = a mod b"
  by (simp add: signed_modulo_int_def sgn_if)

lemma sint_64_less: "sint (d :: 64 word) < 9223372036854775808"
  using sint_lt[of d] by simp

lemma float64_div_nsec:
  assumes "0 \<le> n" "n < 1000000000"
  shows "0 \<le> float64_div (float64_of_int n) 1000000000
       \<and> float64_div (float64_of_int n) 1000000000 \<le> 1
       \<and> float64_div (float64_of_int n) 1000000000 \<le> of_int n / 1000000000 + 2 powi (- 54)"
proof (cases "n = 0")
  case True
  then show ?thesis by (simp add: float64_div_def float64_of_int_def float64_round_def)
next
  case False
  have n: "float64_of_int n = of_int n"
    unfolding float64_of_int_def using assms by (intro float64_round_of_int) simp
  let ?x = "(of_int n :: rat) / 1000000000"
  have x0: "0 < ?x" using False assms by simp
  have "(of_int n :: rat) < of_int 1000000000" using assms(2) by (simp only: of_int_less_iff)
  then have x1: "?x < 1" by simp
  have b: "of_int 0 \<le> float64_round ?x \<and> float64_round ?x \<le> of_int 1"
    using x0 x1 by (intro float64_round_between_ints) simp_all
  have "?x < 2 powi 0" using x1 by simp
  then have "float64_quantum ?x \<le> 2 powi (0 - 53)"
    using x0 by (intro float64_quantum_le) simp_all
  then have q: "float64_quantum ?x \<le> 2 powi (- 53)"
    by simp
  have "\<bar>float64_round ?x - ?x\<bar> \<le> float64_quantum ?x / 2"
    using x0 by (rule float64_round_error)
  then have "float64_round ?x - ?x \<le> float64_quantum ?x / 2" by (simp only: abs_le_iff)
  moreover have "(2::rat) powi (- 54) = 2 powi (- 53) / 2"
    using power_int_diff[of "2::rat" "- 53" 1] by simp
  ultimately have "float64_round ?x \<le> ?x + 2 powi (- 54)" using q by linarith
  then show ?thesis using b by (simp add: float64_div_def n)
qed

lemma Duration_Seconds_bounds:
  assumes "Second \<le> sint d"
  shows "of_int (sint d div Second) \<le> Duration_Seconds d
       \<and> Duration_Seconds d \<le> of_int (sint d div Second + 1)"
proof -
  let ?s = "sint d div Second" and ?n = "sint d mod Second"
  have d0: "0 \<le> sint d" using assms by (simp add: Second_def)
  have s1: "1 \<le> ?s" using assms by (simp add: Second_def pos_imp_zdiv_pos_iff)
  have s2: "?s < 2 ^ 34" using sint_64_less[of d] by (simp add: Second_def)
  have n: "0 \<le> ?n" "?n < 1000000000" by (simp_all add: Second_def)
  have fs: "float64_of_int ?s = of_int ?s"
    unfolding float64_of_int_def using s1 s2 by (intro float64_round_of_int) simp
  define r where "r = float64_div (float64_of_int ?n) 1000000000"
  have r: "0 \<le> r" "r \<le> 1" using float64_div_nsec[OF n] by (simp_all add: r_def)
  have eq: "Duration_Seconds d = float64_round (of_int ?s + r)"
  proof -
    have "0 < Second" by (simp add: Second_def)
    then have "sint d sdiv Second = ?s" "sint d smod Second = ?n"
      using d0 by (simp_all add: sdiv_nonneg_eq smod_nonneg_eq)
    then show ?thesis
      by (simp only: Duration_Seconds_def Let_def float64_add_def fs r_def)
  qed
  have "(of_int ?s :: rat) < of_int (2 ^ 34)" using s2 by (simp only: of_int_less_iff)
  then have "(of_int ?s :: rat) + r < 2 ^ 53" using r by simp
  moreover have "0 < (of_int ?s :: rat) + r" using s1 r by simp
  moreover have "(of_int ?s :: rat) + r \<le> of_int (?s + 1)" using r by simp
  ultimately show ?thesis
    unfolding eq using r(1) by (intro float64_round_between_ints) simp_all
qed

lemma int_of_float64_Seconds:
  assumes "Second \<le> sint d"
  shows "int_of_float64 (Duration_Seconds d) = sint d div Second
       \<or> int_of_float64 (Duration_Seconds d) = sint d div Second + 1"
proof -
  let ?s = "sint d div Second"
  have b: "of_int ?s \<le> Duration_Seconds d" "Duration_Seconds d \<le> of_int (?s + 1)"
    using Duration_Seconds_bounds[OF assms] by simp_all
  have "0 \<le> ?s" using assms by (simp add: Second_def pos_imp_zdiv_nonneg_iff)
  then have "(0::rat) \<le> of_int ?s" by simp
  then have 0: "0 \<le> Duration_Seconds d" using b(1) by linarith
  have "?s \<le> \<lfloor>Duration_Seconds d\<rfloor>" using b(1) by (simp only: le_floor_iff)
  moreover have "\<lfloor>Duration_Seconds d\<rfloor> \<le> ?s + 1" 
  proof -
    have "\<lfloor>Duration_Seconds d\<rfloor> \<le> \<lfloor>(of_int (?s + 1) :: rat)\<rfloor>" using b(2) by (rule floor_mono)
    then show ?thesis by (simp only: floor_of_int)
  qed
  ultimately show ?thesis using 0 by (simp add: int_of_float64_def) linarith
qed

lemma Duration_Seconds_unfold:
  assumes "Second \<le> sint d"
  shows "Duration_Seconds d =
         float64_round (of_int (sint d div Second)
           + float64_div (float64_of_int (sint d mod Second)) 1000000000)"
proof -
  have d0: "0 \<le> sint d" using assms by (simp add: Second_def)
  have "1 \<le> sint d div Second" using assms by (simp add: Second_def pos_imp_zdiv_pos_iff)
  moreover have "sint d div Second < 2 ^ 34" using sint_64_less[of d] by (simp add: Second_def)
  ultimately have fs: "float64_of_int (sint d div Second) = of_int (sint d div Second)"
    unfolding float64_of_int_def by (intro float64_round_of_int) simp
  have "0 < Second" by (simp add: Second_def)
  then have "sint d sdiv Second = sint d div Second" "sint d smod Second = sint d mod Second"
    using d0 by (simp_all add: sdiv_nonneg_eq smod_nonneg_eq)
  then show ?thesis
    by (simp only: Duration_Seconds_def Let_def float64_add_def fs)
qed

lemma int_of_float64_Seconds_exact:
  assumes "Second \<le> sint d" "sint d < 16777216 * Second"
  shows "int_of_float64 (Duration_Seconds d) = sint d div Second"
proof -
  let ?s = "sint d div Second" and ?n = "sint d mod Second"
  define r where "r = float64_div (float64_of_int ?n) 1000000000"
  have n: "0 \<le> ?n" "?n < 1000000000" by (simp_all add: Second_def)
  have r0: "0 \<le> r" and r1: "r \<le> of_int ?n / 1000000000 + 2 powi (- 54)"
    using float64_div_nsec[OF n] by (simp_all add: r_def)
  have "?n \<le> 999999999" using n(2) by simp
  then have "(of_int ?n :: rat) \<le> of_int 999999999" by (simp only: of_int_le_iff)
  then have "(of_int ?n :: rat) / 1000000000 \<le> 999999999 / 1000000000" by simp
  then have r2: "r \<le> 999999999 / 1000000000 + 2 powi (- 54)" using r1 by linarith
  have small: "(2::rat) powi (- 54) + 2 powi (- 30) < 1 / 1000000000"
    by (simp add: power_int_minus)
  have p30: "(0::rat) < 2 powi (- 30)" by simp
  have s1: "1 \<le> ?s" using assms(1) by (simp add: Second_def pos_imp_zdiv_pos_iff)
  have "?s < 16777216" using assms(2) by (simp add: Second_def)
  then have "?s \<le> 16777215" by simp
  then have "(of_int ?s :: rat) \<le> of_int 16777215" by (simp only: of_int_le_iff)
  then have s2: "(of_int ?s :: rat) \<le> 16777215" by simp
  let ?x = "(of_int ?s :: rat) + r"
  have x0: "0 < ?x" using s1 r0 by simp
  have "?x < 16777216" using s2 r2 small p30 by linarith
  then have "?x < 2 powi 24" by simp
  then have "float64_quantum ?x \<le> 2 powi (24 - 53)"
    using x0 by (intro float64_quantum_le) simp_all
  then have q: "float64_quantum ?x \<le> 2 powi (- 29)" by simp
  have "\<bar>float64_round ?x - ?x\<bar> \<le> float64_quantum ?x / 2"
    using x0 by (rule float64_round_error)
  then have "float64_round ?x - ?x \<le> float64_quantum ?x / 2" by (simp only: abs_le_iff)
  moreover have "(2::rat) powi (- 30) = 2 powi (- 29) / 2"
    using power_int_diff[of "2::rat" "- 29" 1] by simp
  ultimately have "float64_round ?x \<le> ?x + 2 powi (- 30)" using q by linarith
  then have "float64_round ?x < of_int ?s + 1" using r2 small by linarith
  then have up: "Duration_Seconds d < of_int ?s + 1"
    by (simp only: Duration_Seconds_unfold[OF assms(1)] r_def)
  have lo: "of_int ?s \<le> Duration_Seconds d"
    using Duration_Seconds_bounds[OF assms(1)] by simp
  have "(0::rat) \<le> of_int ?s" using s1 by simp
  then have 0: "0 \<le> Duration_Seconds d" using lo by linarith
  have "\<lfloor>Duration_Seconds d\<rfloor> = ?s"
    using lo up by (simp only: floor_eq_iff)
  then show ?thesis using 0 by (simp add: int_of_float64_def)
qed

section \<open>Components and parts of \<open>humanReadableDuration\<close>\<close>

lemma humanReadableDuration_components_props:
  assumes "0 \<le> s0" "humanReadableDuration_components s0 = (h, m, s)"
  shows "0 \<le> h \<and> 0 \<le> m \<and> m < 60 \<and> 0 \<le> s \<and> s < 60 \<and> h * 3600 + m * 60 + s = s0"
proof (cases "60 \<le> s0")
  case False
  then show ?thesis using assms by (simp add: humanReadableDuration_components_def)
next
  case True
  have q: "s0 sdiv 60 = s0 div 60" "s0 smod 60 = s0 mod 60"
    using assms(1) by (simp_all add: sdiv_nonneg_eq smod_nonneg_eq)
  have m0: "0 \<le> s0 div 60" using assms(1) by simp
  have q2: "(s0 div 60) sdiv 60 = s0 div 60 div 60" "(s0 div 60) smod 60 = s0 div 60 mod 60"
    using m0 by (simp_all add: sdiv_nonneg_eq smod_nonneg_eq)
  show ?thesis
  proof (cases "60 \<le> s0 div 60")
    case False
    then have "h = 0" "m = s0 div 60" "s = s0 mod 60"
      using assms(2) True by (simp_all add: humanReadableDuration_components_def q Let_def)
    then show ?thesis using False m0 by simp
  next
    case True2: True
    then have hms: "h = s0 div 60 div 60" "m = s0 div 60 mod 60" "s = s0 mod 60"
      using assms(2) True by (simp_all add: humanReadableDuration_components_def q q2 Let_def)
    have "0 \<le> h" using m0 hms(1) by simp
    moreover have "h * 3600 + m * 60 + s = s0"
      unfolding hms by presburger
    ultimately show ?thesis using hms by simp
  qed
qed

lemma humanReadableDuration_parts_eq:
  assumes "0 \<le> h" "0 \<le> m" "0 \<le> s"
  shows "strings_Join (humanReadableDuration_parts (h, m, s)) '' '' = omit_zero_components (h, m, s)"
proof -
  have "(0 < h) = (h \<noteq> 0)" "(0 < m) = (m \<noteq> 0)" "(0 < s) = (s \<noteq> 0)"
    using assms by auto
  then show ?thesis
    by (simp add: humanReadableDuration_parts_def omit_zero_components_def Let_def)
qed

lemma humanReadableDuration_parts_nonempty:
  assumes "0 < h \<or> 0 < m \<or> 0 < s"
  shows "strings_Join (humanReadableDuration_parts (h, m, s)) '' '' \<noteq> []"
  using assms by (auto simp: humanReadableDuration_parts_def Let_def)

lemma int_of_float64_Seconds_pos:
  assumes "Second \<le> sint d"
  shows "1 \<le> int_of_float64 (Duration_Seconds d)"
proof -
  have "1 \<le> sint d div Second" using assms by (simp add: Second_def pos_imp_zdiv_pos_iff)
  then show ?thesis using int_of_float64_Seconds[OF assms] by linarith
qed

section \<open>Claims about \<open>humanReadableDuration\<close>\<close>

text \<open>
  Claim C1. A duration below one second gives \<open>less than a second\<close>; 90 seconds give
  \<open>1 min 30 sec\<close> and 3661 seconds give \<open>1 h 1 min 1 sec\<close>; from one second on the result
  is the hours, minutes and seconds the function computed, each with its unit, with every
  component of value zero left out.
\<close>

theorem humanReadableDuration_omits_zero:
  "(sint d < Second \<longrightarrow> humanReadableDuration d = ''less than a second'')
   \<and> humanReadableDuration 90000000000 = ''1 min 30 sec''
   \<and> humanReadableDuration 3661000000000 = ''1 h 1 min 1 sec''
   \<and> (Second \<le> sint d \<longrightarrow>
        humanReadableDuration d =
          omit_zero_components
            (humanReadableDuration_components (int_of_float64 (Duration_Seconds d))))"
proof -
  have a: "humanReadableDuration 90000000000 = ''1 min 30 sec''" by code_simp
  have b: "humanReadableDuration 3661000000000 = ''1 h 1 min 1 sec''" by code_simp
  have c: "humanReadableDuration d =
          omit_zero_components
            (humanReadableDuration_components (int_of_float64 (Duration_Seconds d)))"
    if d: "Second \<le> sint d"
  proof -
    let ?s0 = "int_of_float64 (Duration_Seconds d)"
    obtain h m s where hms: "humanReadableDuration_components ?s0 = (h, m, s)"
      by (cases "humanReadableDuration_components ?s0")
    have "0 \<le> ?s0" using int_of_float64_Seconds_pos[OF d] by simp
    then have "0 \<le> h" "0 \<le> m" "0 \<le> s"
      using humanReadableDuration_components_props[OF _ hms] by simp_all
    then have "strings_Join (humanReadableDuration_parts (h, m, s)) '' ''
               = omit_zero_components (h, m, s)"
      by (rule humanReadableDuration_parts_eq)
    then show ?thesis using d by (simp add: humanReadableDuration_def hms)
  qed
  show ?thesis using a b c by (simp add: humanReadableDuration_def)
qed

theorem humanReadableDuration_omits_zero_witness:
  "sint (500000000 :: Duration) < Second
   \<and> humanReadableDuration 500000000 = ''less than a second''
   \<and> Second \<le> sint (7200000000000 :: Duration)
   \<and> humanReadableDuration 7200000000000 = ''2 h''"
proof -
  have h1: "sint (500000000 :: Duration) < Second" by (simp add: Second_def)
  have h2: "Second \<le> sint (7200000000000 :: Duration)" by (simp add: Second_def)
  have c: "omit_zero_components
            (humanReadableDuration_components (int_of_float64 (Duration_Seconds 7200000000000)))
           = ''2 h''" by code_simp
  show ?thesis
    using humanReadableDuration_omits_zero[of 500000000]
      humanReadableDuration_omits_zero[of 7200000000000] h1 h2 c by simp
qed

text \<open>
  Claim C10 says that the three components add up to the whole number of seconds in the
  duration. \<open>Duration.Seconds\<close> goes through \<open>float64\<close>: at 16777216.999999999 s the sum
  \<open>16777216 + 0.999999999\<close> has no \<open>float64\<close> of its own and rounds to 16777217, so the
  components are those of 16777217 seconds, one more than the 16777216 whole seconds.
\<close>

theorem humanReadableDuration_seconds_rounded_up:
  "Second \<le> sint (16777216999999999 :: Duration)
   \<and> sint (16777216999999999 :: Duration) div Second = 16777216
   \<and> humanReadableDuration_components (int_of_float64 (Duration_Seconds 16777216999999999))
       = (4660, 20, 17)
   \<and> (4660 :: int) * 3600 + 20 * 60 + 17 \<noteq> 16777216"
proof -
  have 1: "Second \<le> sint (16777216999999999 :: Duration)" by (simp add: Second_def)
  have 2: "sint (16777216999999999 :: Duration) div Second = 16777216" by (simp add: Second_def)
  have 3: "humanReadableDuration_components (int_of_float64 (Duration_Seconds 16777216999999999))
       = (4660, 20, 17)" by code_simp
  show ?thesis using 1 2 3 by simp
qed

text \<open>
  Claim C10, amended. For a duration of at least one second the components satisfy
  \<open>minutes < 60\<close> and \<open>seconds < 60\<close>, and \<open>hours * 3600 + minutes * 60 + seconds\<close> is
  \<open>int(duration.Seconds())\<close>: the whole number of seconds in the duration or one more, and
  exactly the whole number of seconds for every duration below \<open>2^24\<close> seconds. The string
  returned is not empty.
\<close>

theorem humanReadableDuration_components_sum:
  assumes "Second \<le> sint d"
    and "humanReadableDuration_components (int_of_float64 (Duration_Seconds d))
         = (hours, minutes, seconds)"
  shows "minutes < 60 \<and> seconds < 60
     \<and> hours * 3600 + minutes * 60 + seconds = int_of_float64 (Duration_Seconds d)
     \<and> (hours * 3600 + minutes * 60 + seconds = sint d div Second
        \<or> hours * 3600 + minutes * 60 + seconds = sint d div Second + 1)
     \<and> (sint d < 16777216 * Second \<longrightarrow>
          hours * 3600 + minutes * 60 + seconds = sint d div Second)
     \<and> humanReadableDuration d \<noteq> []"
proof -
  let ?s0 = "int_of_float64 (Duration_Seconds d)"
  have pos: "1 \<le> ?s0" by (rule int_of_float64_Seconds_pos[OF assms(1)])
  then have "0 \<le> ?s0" by simp
  then have p: "0 \<le> hours" "0 \<le> minutes" "minutes < 60" "0 \<le> seconds" "seconds < 60"
    "hours * 3600 + minutes * 60 + seconds = ?s0"
    using humanReadableDuration_components_props[OF _ assms(2)] by simp_all
  have "0 < hours \<or> 0 < minutes \<or> 0 < seconds" using p pos by linarith
  then have "strings_Join (humanReadableDuration_parts (hours, minutes, seconds)) '' '' \<noteq> []"
    by (rule humanReadableDuration_parts_nonempty)
  then have ne: "humanReadableDuration d \<noteq> []"
    using assms by (simp add: humanReadableDuration_def)
  have ex: "sint d < 16777216 * Second \<longrightarrow> ?s0 = sint d div Second"
    using int_of_float64_Seconds_exact[OF assms(1)] by simp
  show ?thesis
    using p ne ex int_of_float64_Seconds[OF assms(1)] by simp
qed

theorem humanReadableDuration_components_sum_witness:
  "Second \<le> sint (3661000000000 :: Duration)
   \<and> humanReadableDuration_components (int_of_float64 (Duration_Seconds 3661000000000)) = (1, 1, 1)
   \<and> sint (3661000000000 :: Duration) < 16777216 * Second
   \<and> (1 :: int) * 3600 + 1 * 60 + 1 = sint (3661000000000 :: Duration) div Second
   \<and> humanReadableDuration 3661000000000 \<noteq> []"
proof -
  have h1: "Second \<le> sint (3661000000000 :: Duration)" by (simp add: Second_def)
  have h2: "humanReadableDuration_components (int_of_float64 (Duration_Seconds 3661000000000))
            = (1, 1, 1)" by code_simp
  have h3: "sint (3661000000000 :: Duration) < 16777216 * Second" by (simp add: Second_def)
  show ?thesis
    using humanReadableDuration_components_sum[OF h1 h2] h1 h2 h3 by simp
qed

section \<open>Claims about the setting mappers\<close>

lemma upper_chars:
  "char_of (74 :: nat) = CHR ''J''" "char_of (83 :: nat) = CHR ''S''"
  "char_of (79 :: nat) = CHR ''O''" "char_of (78 :: nat) = CHR ''N''"
  "char_of (89 :: nat) = CHR ''Y''" "char_of (65 :: nat) = CHR ''A''"
  "char_of (77 :: nat) = CHR ''M''" "char_of (76 :: nat) = CHR ''L''"
  by code_simp+


lemma unicode_ToLower_eq_iff:
  assumes "97 \<le> (of_char l :: nat)" "(of_char l :: nat) \<le> 122"
  shows "unicode_ToLower c = l \<longleftrightarrow> c = l \<or> c = char_of ((of_char l :: nat) - 32)"
proof (cases "65 \<le> (of_char c :: nat) \<and> (of_char c :: nat) \<le> 90")
  case True
  then have cl: "c \<noteq> l" using assms by auto
  have "unicode_ToLower c = l \<longleftrightarrow> char_of ((of_char c :: nat) + 32) = l"
    using True by (simp add: unicode_ToLower_def Let_def)
  also have "\<dots> \<longleftrightarrow> (of_char c :: nat) + 32 = of_char l"
  proof
    assume "char_of ((of_char c :: nat) + 32) = l"
    then have "(of_char l :: nat) = of_char (char_of ((of_char c :: nat) + 32))" by simp
    also have "\<dots> = ((of_char c :: nat) + 32) mod 256" by (simp only: of_char_of)
    also have "\<dots> = (of_char c :: nat) + 32" using True by simp
    finally show "(of_char c :: nat) + 32 = of_char l" by simp
  next
    assume "(of_char c :: nat) + 32 = of_char l"
    then show "char_of ((of_char c :: nat) + 32) = l" by (simp only: char_of_char)
  qed
  also have "\<dots> \<longleftrightarrow> c = char_of ((of_char l :: nat) - 32)"
  proof
    assume a: "(of_char c :: nat) + 32 = of_char l"
    then have "(of_char l :: nat) - 32 = of_char c" by simp
    then show "c = char_of ((of_char l :: nat) - 32)" by (simp only: char_of_char)
  next
    assume "c = char_of ((of_char l :: nat) - 32)"
    then have "(of_char c :: nat) = of_char (char_of ((of_char l :: nat) - 32))" by simp
    also have "\<dots> = ((of_char l :: nat) - 32) mod 256" by (simp only: of_char_of)
    also have "\<dots> = (of_char l :: nat) - 32" using assms by simp
    finally show "(of_char c :: nat) + 32 = of_char l" using assms by simp
  qed
  finally show ?thesis using cl by simp
next
  case False
  have "c \<noteq> char_of ((of_char l :: nat) - 32)"
  proof
    assume "c = char_of ((of_char l :: nat) - 32)"
    then have "(of_char c :: nat) = of_char (char_of ((of_char l :: nat) - 32))" by simp
    also have "\<dots> = ((of_char l :: nat) - 32) mod 256" by (simp only: of_char_of)
    also have "\<dots> = (of_char l :: nat) - 32" using assms by simp
    finally show False using False assms by auto
  qed
  then show ?thesis using False by (auto simp: unicode_ToLower_def Let_def)
qed

lemma map_eq_four:
  "map f s = [p, q, r, t] \<longleftrightarrow>
     (\<exists>a b c d. s = [a, b, c, d] \<and> f a = p \<and> f b = q \<and> f c = r \<and> f d = t)"
  by (auto simp: map_eq_Cons_conv)

lemma strings_ToLower_json:
  "strings_ToLower s = ''json'' \<longleftrightarrow>
     (\<exists>a b c d. s = [a, b, c, d] \<and> a \<in> {CHR ''j'', CHR ''J''} \<and> b \<in> {CHR ''s'', CHR ''S''}
        \<and> c \<in> {CHR ''o'', CHR ''O''} \<and> d \<in> {CHR ''n'', CHR ''N''})"
proof -
  have j: "unicode_ToLower a = CHR ''j'' \<longleftrightarrow> a = CHR ''j'' \<or> a = CHR ''J''" for a
    using unicode_ToLower_eq_iff[of "CHR ''j''" a] by (simp add: upper_chars)
  have s: "unicode_ToLower a = CHR ''s'' \<longleftrightarrow> a = CHR ''s'' \<or> a = CHR ''S''" for a
    using unicode_ToLower_eq_iff[of "CHR ''s''" a] by (simp add: upper_chars)
  have o: "unicode_ToLower a = CHR ''o'' \<longleftrightarrow> a = CHR ''o'' \<or> a = CHR ''O''" for a
    using unicode_ToLower_eq_iff[of "CHR ''o''" a] by (simp add: upper_chars)
  have n: "unicode_ToLower a = CHR ''n'' \<longleftrightarrow> a = CHR ''n'' \<or> a = CHR ''N''" for a
    using unicode_ToLower_eq_iff[of "CHR ''n''" a] by (simp add: upper_chars)
  show ?thesis
    unfolding strings_ToLower_def map_eq_four j s o n by simp
qed

lemma strings_ToLower_yaml:
  "strings_ToLower s = ''yaml'' \<longleftrightarrow>
     (\<exists>a b c d. s = [a, b, c, d] \<and> a \<in> {CHR ''y'', CHR ''Y''} \<and> b \<in> {CHR ''a'', CHR ''A''}
        \<and> c \<in> {CHR ''m'', CHR ''M''} \<and> d \<in> {CHR ''l'', CHR ''L''})"
proof -
  have y: "unicode_ToLower a = CHR ''y'' \<longleftrightarrow> a = CHR ''y'' \<or> a = CHR ''Y''" for a
    using unicode_ToLower_eq_iff[of "CHR ''y''" a] by (simp add: upper_chars)
  have aa: "unicode_ToLower a = CHR ''a'' \<longleftrightarrow> a = CHR ''a'' \<or> a = CHR ''A''" for a
    using unicode_ToLower_eq_iff[of "CHR ''a''" a] by (simp add: upper_chars)
  have m: "unicode_ToLower a = CHR ''m'' \<longleftrightarrow> a = CHR ''m'' \<or> a = CHR ''M''" for a
    using unicode_ToLower_eq_iff[of "CHR ''m''" a] by (simp add: upper_chars)
  have l: "unicode_ToLower a = CHR ''l'' \<longleftrightarrow> a = CHR ''l'' \<or> a = CHR ''L''" for a
    using unicode_ToLower_eq_iff[of "CHR ''l''" a] by (simp add: upper_chars)
  show ?thesis
    unfolding strings_ToLower_def map_eq_four y aa m l by simp
qed

text \<open>
  Claim C2. \<open>mapOutputSetting\<close> returns a nil error for every input. An input that lowers
  to \<open>json\<close> or \<open>yaml\<close> is mapped to \<open>JSON\<close> or \<open>YAML\<close>, whatever its case: the inputs
  mapped to \<open>JSON\<close> are the four letters j, s, o, n, each in either case, and likewise for
  \<open>YAML\<close>. Every other input (such as \<open>bogus\<close>) is mapped to the sentinel \<open>-1\<close>.
\<close>

theorem mapOutputSetting_never_fails:
  "snd (mapOutputSetting s) = None
   \<and> (strings_ToLower s = ''json'' \<longrightarrow> fst (mapOutputSetting s) = JSON)
   \<and> (strings_ToLower s = ''yaml'' \<longrightarrow> fst (mapOutputSetting s) = YAML)
   \<and> (strings_ToLower s \<noteq> ''json'' \<and> strings_ToLower s \<noteq> ''yaml'' \<longrightarrow>
        fst (mapOutputSetting s) = OutputType_of (- 1))
   \<and> (fst (mapOutputSetting s) = JSON \<longleftrightarrow>
        (\<exists>a b c d. s = [a, b, c, d] \<and> a \<in> {CHR ''j'', CHR ''J''} \<and> b \<in> {CHR ''s'', CHR ''S''}
           \<and> c \<in> {CHR ''o'', CHR ''O''} \<and> d \<in> {CHR ''n'', CHR ''N''}))
   \<and> (fst (mapOutputSetting s) = YAML \<longleftrightarrow>
        (\<exists>a b c d. s = [a, b, c, d] \<and> a \<in> {CHR ''y'', CHR ''Y''} \<and> b \<in> {CHR ''a'', CHR ''A''}
           \<and> c \<in> {CHR ''m'', CHR ''M''} \<and> d \<in> {CHR ''l'', CHR ''L''}))
   \<and> mapOutputSetting ''JSON'' = (JSON, None)
   \<and> mapOutputSetting ''bogus'' = (OutputType_of (- 1), None)"
proof -
  have a: "mapOutputSetting ''JSON'' = (JSON, None)" by code_simp
  have b: "mapOutputSetting ''bogus'' = (OutputType_of (- 1), None)" by code_simp
  have j: "fst (mapOutputSetting s) = JSON \<longleftrightarrow> strings_ToLower s = ''json''"
    by (simp add: mapOutputSetting_def Let_def)
  have y: "fst (mapOutputSetting s) = YAML \<longleftrightarrow> strings_ToLower s = ''yaml''"
    by (auto simp: mapOutputSetting_def Let_def)
  have rest: "snd (mapOutputSetting s) = None
     \<and> (strings_ToLower s \<noteq> ''json'' \<and> strings_ToLower s \<noteq> ''yaml'' \<longrightarrow>
        fst (mapOutputSetting s) = OutputType_of (- 1))"
    by (simp add: mapOutputSetting_def Let_def)
  show ?thesis
    unfolding j y strings_ToLower_json[symmetric] strings_ToLower_yaml[symmetric]
    using a b rest by simp
qed

theorem mapOutputSetting_never_fails_witness:
  "strings_ToLower ''Json'' = ''json'' \<and> mapOutputSetting ''Json'' = (JSON, None)
   \<and> strings_ToLower ''yAML'' = ''yaml'' \<and> mapOutputSetting ''yAML'' = (YAML, None)
   \<and> strings_ToLower ''XML'' \<noteq> ''json'' \<and> strings_ToLower ''XML'' \<noteq> ''yaml''
   \<and> mapOutputSetting ''XML'' = (OutputType_of (- 1), None)"
proof -
  have 1: "strings_ToLower ''Json'' = ''json''" by code_simp
  have 2: "strings_ToLower ''yAML'' = ''yaml''" by code_simp
  have 3: "strings_ToLower ''XML'' = ''xml''" by code_simp
  have j: "fst (mapOutputSetting ''Json'') = JSON \<and> snd (mapOutputSetting ''Json'') = None"
    using mapOutputSetting_never_fails[of "''Json''"] 1 by blast
  have y: "fst (mapOutputSetting ''yAML'') = YAML \<and> snd (mapOutputSetting ''yAML'') = None"
    using mapOutputSetting_never_fails[of "''yAML''"] 2 by blast
  have x: "fst (mapOutputSetting ''XML'') = OutputType_of (- 1) \<and> snd (mapOutputSetting ''XML'') = None"
    using mapOutputSetting_never_fails[of "''XML''"] 3 by (simp del: One_nat_def)
  show ?thesis using 1 2 3 j y x by (simp add: prod_eq_iff)
qed

text \<open>
  Claim C3. \<open>mapDeleteSetting\<close> maps \<open>always\<close>, \<open>never\<close> and \<open>on-success\<close>, in exactly this
  spelling, to \<open>Always\<close>, \<open>Never\<close> and \<open>OnSuccess\<close> with a nil error, and returns an error
  for every other string (such as \<open>bogus\<close>, or \<open>Always\<close> with a capital).
\<close>

theorem mapDeleteSetting_three_strings:
  "mapDeleteSetting ''always'' = (Always, None)
   \<and> mapDeleteSetting ''never'' = (Never, None)
   \<and> mapDeleteSetting ''on-success'' = (OnSuccess, None)
   \<and> (s \<noteq> ''always'' \<and> s \<noteq> ''never'' \<and> s \<noteq> ''on-success'' \<longrightarrow>
        snd (mapDeleteSetting s) = Some (Error (''unsupported delete setting: '' @ s)))
   \<and> (snd (mapDeleteSetting s) = None \<longrightarrow> s = ''always'' \<or> s = ''never'' \<or> s = ''on-success'')
   \<and> snd (mapDeleteSetting ''bogus'') \<noteq> None
   \<and> snd (mapDeleteSetting ''Always'') \<noteq> None"
  by (simp add: mapDeleteSetting_def)

theorem mapDeleteSetting_three_strings_witness:
  "''ALWAYS'' \<noteq> ''always'' \<and> ''ALWAYS'' \<noteq> ''never'' \<and> ''ALWAYS'' \<noteq> ''on-success''
   \<and> snd (mapDeleteSetting ''ALWAYS'') = Some (Error ''unsupported delete setting: ALWAYS'')
   \<and> snd (mapDeleteSetting ''never'') = None"
  using mapDeleteSetting_three_strings[of "''ALWAYS''"] mapDeleteSetting_three_strings[of "''never''"]
  by simp

section \<open>Claims about \<open>summaryPrintout\<close>\<close>

text \<open>
  Claim C6. \<open>summaryPrintout\<close> returns an error only at summary level \<open>full\<close> with output
  type \<open>JSON\<close> or \<open>YAML\<close>, and then the error is the one of \<open>ToJSON\<close>, of \<open>json.Indent\<close> or
  of \<open>ToYAML\<close>; in every other combination of settings, and for every report, it returns
  nil. Each of the three failures is returned.
\<close>

theorem summaryPrintout_error_only_from_serialization:
  "(snd (summaryPrintout ind cap report summary ot) = Some e \<longrightarrow>
      summary = ''full''
      \<and> (ot = JSON \<and> (ToJSON report = Inl e
                       \<or> (\<exists>output. ToJSON report = Inr output \<and> ind output [] ''   '' = Inl e))
         \<or> ot = YAML \<and> ToYAML report = Inl e))
   \<and> (\<not> (summary = ''full'' \<and> (ot = JSON \<or> ot = YAML)) \<longrightarrow>
        snd (summaryPrintout ind cap report summary ot) = None)
   \<and> (summary = ''full'' \<and> ot = JSON \<and> ToJSON report = Inl e \<longrightarrow>
        snd (summaryPrintout ind cap report summary ot) = Some e)
   \<and> (summary = ''full'' \<and> ot = JSON \<and> ToJSON report = Inr out \<and> ind out [] ''   '' = Inl e \<longrightarrow>
        snd (summaryPrintout ind cap report summary ot) = Some e)
   \<and> (summary = ''full'' \<and> ot = YAML \<and> ToYAML report = Inl e \<longrightarrow>
        snd (summaryPrintout ind cap report summary ot) = Some e)"
  by (cases ot) (auto simp: summaryPrintout_def split: sum.splits)

theorem summaryPrintout_error_only_from_serialization_witness:
  "snd (summaryPrintout example_Indent ''Golang'' example_report ''full'' JSON)
     = Some (Error ''json: unsupported value'')
   \<and> ToJSON example_report = Inl (Error ''json: unsupported value'')
   \<and> snd (summaryPrintout example_Indent ''Golang'' example_report ''short'' JSON) = None
   \<and> snd (summaryPrintout example_Indent ''Golang'' example_report ''full'' (OutputType_of (- 1))) = None"
proof -
  have j: "ToJSON example_report = Inl (Error ''json: unsupported value'')"
    by (simp add: example_report_def)
  show ?thesis
    using j
      summaryPrintout_error_only_from_serialization
        [of example_Indent "''Golang''" example_report "''full''" JSON "Error ''json: unsupported value''"]
      summaryPrintout_error_only_from_serialization
        [of example_Indent "''Golang''" example_report "''short''" JSON]
      summaryPrintout_error_only_from_serialization
        [of example_Indent "''Golang''" example_report "''full''" "OutputType_of (- 1)"]
    by simp
qed

text \<open>
  Claim C7 says that at level \<open>full\<close> exactly one of the three renderings is printed. With
  output type \<open>JSON\<close> and a report whose \<open>ToJSON\<close> fails, \<open>summaryPrintout\<close> returns the
  error before it prints: nothing is printed.
\<close>

theorem summaryPrintout_full_prints_nothing_on_failure:
  "summaryPrintout example_Indent ''Golang'' example_report ''full'' JSON
     = ([], Some (Error ''json: unsupported value''))"
  by (simp add: summaryPrintout_def example_report_def)

text \<open>
  Claim C7, amended. At the levels \<open>short\<close> and \<open>oneline\<close> the one-line summary is printed
  for every output type, and at every level other than \<open>full\<close> the output type has no
  influence. At level \<open>full\<close> the output type selects the rendering: \<open>JSON\<close> prints the
  re-indented JSON and \<open>YAML\<close> prints the YAML, both only when serialisation succeeds
  (otherwise nothing is printed and the error is returned), and every other output type
  prints the multi-line report, with the phase timings only when the report has time
  details.
\<close>

theorem summaryPrintout_selection:
  "(summary = ''short'' \<or> summary = ''oneline'' \<longrightarrow>
      summaryPrintout ind cap report summary ot = ([oneline_summary cap report], None))
   \<and> (summary \<noteq> ''full'' \<longrightarrow>
        summaryPrintout ind cap report summary ot = summaryPrintout ind cap report summary ot')
   \<and> (summary = ''full'' \<and> ot = JSON \<longrightarrow>
        summaryPrintout ind cap report summary ot =
          (case ToJSON report of
             Inl err \<Rightarrow> ([], Some err)
           | Inr output \<Rightarrow>
               (case ind output [] ''   '' of
                  Inl err \<Rightarrow> ([], Some err)
                | Inr buffer \<Rightarrow> ([buffer @ ''\<newline>''], None))))
   \<and> (summary = ''full'' \<and> ot = YAML \<longrightarrow>
        summaryPrintout ind cap report summary ot =
          (case ToYAML report of
             Inl err \<Rightarrow> ([], Some err)
           | Inr output \<Rightarrow> ([output @ ''\<newline>''], None)))
   \<and> (summary = ''full'' \<and> ot \<noteq> JSON \<and> ot \<noteq> YAML \<longrightarrow>
        summaryPrintout ind cap report summary ot = (human_report cap report, None))"
  by (cases ot)
    (auto simp: summaryPrintout_def oneline_summary_def human_report_def phase_timings_def
      split: sum.splits)

theorem summaryPrintout_selection_witness:
  "summaryPrintout example_Indent ''Golang'' example_report ''oneline'' YAML
     = ([''Successfully pushed *Golang* sample app in CadetBlue{1 min 30 sec}.\<newline>''], None)
   \<and> summaryPrintout example_Indent ''Golang'' example_report ''quiet'' JSON
     = summaryPrintout example_Indent ''Golang'' example_report ''quiet'' YAML
   \<and> summaryPrintout example_Indent ''Golang'' example_report ''full'' JSON
     = ([], Some (Error ''json: unsupported value''))
   \<and> summaryPrintout example_Indent ''Golang'' example_report ''full'' YAML
     = ([''stack: cflinuxfs3\<newline>''], None)
   \<and> summaryPrintout example_Indent ''Golang'' example_report ''full'' (OutputType_of (- 1))
     = ([''Successfully pushed *Golang* sample app in CadetBlue{1 min 30 sec}:\<newline>'',
         ''     DimGray{_stack:_} DarkSeaGreen{cflinuxfs3}\<newline>'',
         '' DimGray{_buildpack:_} DarkSeaGreen{go_buildpack}\<newline>'',
         ''\<newline>''], None)"
proof -
  have d: "humanReadableDuration 90000000000 = ''1 min 30 sec''" by code_simp
  show ?thesis
    using
      summaryPrintout_selection[of "''oneline''" example_Indent "''Golang''" example_report YAML]
      summaryPrintout_selection[of "''quiet''" example_Indent "''Golang''" example_report JSON YAML]
      summaryPrintout_selection[of "''full''" example_Indent "''Golang''" example_report JSON]
      summaryPrintout_selection[of "''full''" example_Indent "''Golang''" example_report YAML]
      summaryPrintout_selection[of "''full''" example_Indent "''Golang''" example_report "OutputType_of (- 1)"]
    by (simp add: example_report_def oneline_summary_def human_report_def d)
qed

text \<open>
  Claim C8. For a summary setting other than \<open>short\<close>, \<open>oneline\<close> and \<open>full\<close> (such as
  \<open>quiet\<close> or the empty string), \<open>summaryPrintout\<close> prints nothing and returns nil, for
  every report and every output type.
\<close>

theorem summaryPrintout_unknown_summary_silent:
  "(summary \<noteq> ''short'' \<and> summary \<noteq> ''oneline'' \<and> summary \<noteq> ''full'' \<longrightarrow>
      summaryPrintout ind cap report summary ot = ([], None))
   \<and> summaryPrintout ind cap report ''quiet'' ot = ([], None)
   \<and> summaryPrintout ind cap report [] ot = ([], None)"
  by (simp add: summaryPrintout_def)

theorem summaryPrintout_unknown_summary_silent_witness:
  "summaryPrintout example_Indent ''Golang'' example_report ''quiet'' JSON = ([], None)
   \<and> summaryPrintout example_Indent ''Golang'' example_report [] YAML = ([], None)"
  using summaryPrintout_unknown_summary_silent[of "''quiet''" example_Indent "''Golang''" example_report JSON]
    summaryPrintout_unknown_summary_silent[of "[]" example_Indent "''Golang''" example_report YAML]
  by simp

section \<open>Claims about \<open>runSampleAppPush\<close> and the \<open>all\<close> command\<close>

text \<open>
  Claim C4. \<open>runSampleAppPush\<close> maps the delete setting, maps the output setting, generates
  the name from the prefix of the app, calls the asset function, calls \<open>cf.PushApp\<close> and
  prints the report, in this order, and returns the first error without running a later
  step: after an unsupported delete setting nothing is called at all, after a failing asset
  function \<open>cf.PushApp\<close> is not called, and after a failing push nothing is printed.
\<close>

theorem runSampleAppPush_first_error:
  "(snd (mapDeleteSetting (deleteSetting env)) = Some e \<longrightarrow>
      runSampleAppPush env app = ([], Some e))
   \<and> (snd (mapDeleteSetting (deleteSetting env)) = None \<and> assetFunc app () = Inl e \<longrightarrow>
        runSampleAppPush env app =
          ([Call_RandomStringWithPrefix (appNamePrefix app) 32, Call_assetFunc (caption app)],
           Some e))
   \<and> (snd (mapDeleteSetting (deleteSetting env)) = None \<and> assetFunc app () = Inr directory
        \<and> cf_PushApp env (caption app) (generated_appName env app) directory
             (fst (mapDeleteSetting (deleteSetting env))) = Inl e \<longrightarrow>
        runSampleAppPush env app =
          ([Call_RandomStringWithPrefix (appNamePrefix app) 32, Call_assetFunc (caption app),
            Call_PushApp (caption app) (generated_appName env app) directory
              (fst (mapDeleteSetting (deleteSetting env)))],
           Some e))
   \<and> (snd (mapDeleteSetting (deleteSetting env)) = None \<and> assetFunc app () = Inr directory
        \<and> cf_PushApp env (caption app) (generated_appName env app) directory
             (fst (mapDeleteSetting (deleteSetting env))) = Inr report \<longrightarrow>
        runSampleAppPush env app =
          ([Call_RandomStringWithPrefix (appNamePrefix app) 32, Call_assetFunc (caption app),
            Call_PushApp (caption app) (generated_appName env app) directory
              (fst (mapDeleteSetting (deleteSetting env)))]
           @ map Stdout
               (fst (summaryPrintout (json_Indent env) (caption app) report (summarySetting env)
                       (fst (mapOutputSetting (outputSetting env))))),
           snd (summaryPrintout (json_Indent env) (caption app) report (summarySetting env)
                  (fst (mapOutputSetting (outputSetting env))))))"
proof -
  obtain c r where d: "mapDeleteSetting (deleteSetting env) = (c, r)"
    by (cases "mapDeleteSetting (deleteSetting env)")
  obtain ot where o: "mapOutputSetting (outputSetting env) = (ot, None)"
    by (cases "mapOutputSetting (outputSetting env)") (simp add: mapOutputSetting_def Let_def split: if_splits)
  show ?thesis
    by (simp add: runSampleAppPush_def generated_appName_def d o Let_def split: prod.splits)
qed

theorem runSampleAppPush_first_error_witness:
  "runSampleAppPush (example_env\<lparr>deleteSetting := ''sometimes''\<rparr>) (sampleApps example_provider ! 0)
     = ([], Some (Error ''unsupported delete setting: sometimes''))
   \<and> runSampleAppPush example_env (sampleApps example_provider ! 2)
     = ([Call_RandomStringWithPrefix ''gonut-php-app-'' 32, Call_assetFunc ''PHP''],
        Some (Error ''asset not found''))
   \<and> runSampleAppPush (example_env\<lparr>cf_PushApp := example_PushApp_unreachable\<rparr>)
        (sampleApps example_provider ! 0)
     = ([Call_RandomStringWithPrefix ''gonut-golang-app-'' 32, Call_assetFunc ''Golang'',
         Call_PushApp ''Golang'' ''gonut-golang-app-xxxxxxxxxxxxxxx'' ''go'' Always],
        Some (Error ''api unreachable''))
   \<and> runSampleAppPush example_env (sampleApps example_provider ! 0)
     = ([Call_RandomStringWithPrefix ''gonut-golang-app-'' 32, Call_assetFunc ''Golang'',
         Call_PushApp ''Golang'' ''gonut-golang-app-xxxxxxxxxxxxxxx'' ''go'' Always,
         Stdout ''Successfully pushed *Golang* sample app in CadetBlue{1 min 30 sec}.\<newline>''],
        None)"
proof -
  let ?go = "sampleApps example_provider ! 0" and ?php = "sampleApps example_provider ! 2"
  have go: "?go = \<lparr> caption = ''Golang'', command = ''golang'', aliases = [''go''],
         appNamePrefix = ''gonut-golang-app-'', assetFunc = example_asset ''go'' \<rparr>"
    by (simp add: sampleApps_def example_provider_def GonutAppPrefix_def)
  have php: "?php = \<lparr> caption = ''PHP'', command = ''php'', aliases = [],
         appNamePrefix = ''gonut-php-app-'', assetFunc = example_asset_missing \<rparr>"
    by (simp add: sampleApps_def example_provider_def GonutAppPrefix_def)
  have d: "humanReadableDuration 90000000000 = ''1 min 30 sec''" by code_simp
  have ds: "mapDeleteSetting ''always'' = (Always, None)"
    "mapDeleteSetting ''sometimes'' = (AppCleanupSetting_of (- 1), Some (Error ''unsupported delete setting: sometimes''))"
    by (simp_all add: mapDeleteSetting_def)
  have os: "mapOutputSetting [] = (OutputType_of (- 1), None)"
    by (simp add: mapOutputSetting_def strings_ToLower_def)
  have 1: "runSampleAppPush (example_env\<lparr>deleteSetting := ''sometimes''\<rparr>) ?go
     = ([], Some (Error ''unsupported delete setting: sometimes''))"
    using runSampleAppPush_first_error
      [of "example_env\<lparr>deleteSetting := ''sometimes''\<rparr>" "Error ''unsupported delete setting: sometimes''" ?go]
    by (simp add: ds)
  have 2: "runSampleAppPush example_env ?php
     = ([Call_RandomStringWithPrefix ''gonut-php-app-'' 32, Call_assetFunc ''PHP''],
        Some (Error ''asset not found''))"
    using runSampleAppPush_first_error[of example_env "Error ''asset not found''" ?php]
    by (simp add: php example_env_def ds example_asset_missing_def)
  have 3: "runSampleAppPush (example_env\<lparr>cf_PushApp := example_PushApp_unreachable\<rparr>) ?go
     = ([Call_RandomStringWithPrefix ''gonut-golang-app-'' 32, Call_assetFunc ''Golang'',
         Call_PushApp ''Golang'' ''gonut-golang-app-xxxxxxxxxxxxxxx'' ''go'' Always],
        Some (Error ''api unreachable''))"
    using runSampleAppPush_first_error
      [of "example_env\<lparr>cf_PushApp := example_PushApp_unreachable\<rparr>" "Error ''api unreachable''" ?go "''go''"]
    by (simp add: go example_env_def ds example_asset_def example_PushApp_unreachable_def
        generated_appName_def text_RandomStringWithPrefix_def example_RandomString_def
        eval_nat_numeral)
  have 4: "runSampleAppPush example_env ?go
     = ([Call_RandomStringWithPrefix ''gonut-golang-app-'' 32, Call_assetFunc ''Golang'',
         Call_PushApp ''Golang'' ''gonut-golang-app-xxxxxxxxxxxxxxx'' ''go'' Always,
         Stdout ''Successfully pushed *Golang* sample app in CadetBlue{1 min 30 sec}.\<newline>''],
        None)"
    using runSampleAppPush_first_error[of example_env _ ?go "''go''" example_report]
    by (simp add: go example_env_def ds os example_asset_def example_PushApp_def
        summaryPrintout_def example_report_def d
        generated_appName_def text_RandomStringWithPrefix_def example_RandomString_def
        eval_nat_numeral)
  show ?thesis using 1 2 3 4 by simp
qed

lemma pushAll_loop_all_succeed:
  assumes "\<forall>a\<in>set apps. snd (runSampleAppPush env a) = None"
  shows "pushAll_loop env apps = (concat (map (\<lambda>a. fst (runSampleAppPush env a)) apps), Returned)"
  using assms
proof (induction apps)
  case Nil
  then show ?case by simp
next
  case (Cons a apps)
  obtain t where t: "runSampleAppPush env a = (t, None)"
    using Cons.prems by (cases "runSampleAppPush env a") simp
  show ?case using Cons by (simp add: t)
qed

lemma pushAll_loop_first_failure:
  assumes "\<forall>a\<in>set pre. snd (runSampleAppPush env a) = None"
    and "snd (runSampleAppPush env app) = Some e"
  shows "pushAll_loop env (pre @ app # post) =
           (concat (map (\<lambda>a. fst (runSampleAppPush env a)) pre)
              @ fst (runSampleAppPush env app) @ [Call_ExitGonut e], Exited e)"
  using assms(1)
proof (induction pre)
  case Nil
  obtain t where t: "runSampleAppPush env app = (t, Some e)"
    using assms(2) by (cases "runSampleAppPush env app") simp
  show ?case by (simp add: t ExitGonut_def)
next
  case (Cons a pre)
  obtain t where t: "runSampleAppPush env a = (t, None)"
    using Cons.prems by (cases "runSampleAppPush env a") simp
  show ?case using Cons by (simp add: t)
qed

text \<open>
  Claim C5. The \<open>all\<close> command pushes the sample apps one after the other in the order of
  \<open>sampleApps\<close>. At the first push that returns an error it calls \<open>ExitGonut\<close>, which ends
  the run: the events of the run are those of the apps before the failing one, those of
  the failing one and the exit, and no app after it is pushed. When no push fails, every
  app is pushed, in order.
\<close>

theorem pushAll_stops_at_first_error:
  "(sampleApps provider = pre @ app # post
      \<and> (\<forall>a\<in>set pre. snd (runSampleAppPush env a) = None)
      \<and> snd (runSampleAppPush env app) = Some e \<longrightarrow>
      pushAll_Run provider env =
        (concat (map (\<lambda>a. fst (runSampleAppPush env a)) pre)
           @ fst (runSampleAppPush env app) @ [Call_ExitGonut e], Exited e))
   \<and> ((\<forall>a\<in>set (sampleApps provider). snd (runSampleAppPush env a) = None) \<longrightarrow>
        pushAll_Run provider env =
          (concat (map (\<lambda>a. fst (runSampleAppPush env a)) (sampleApps provider)), Returned))"
  using pushAll_loop_first_failure[of pre env app e post] pushAll_loop_all_succeed[of "sampleApps provider" env]
  by (simp add: pushAll_Run_def)

theorem pushAll_stops_at_first_error_witness:
  "snd (runSampleAppPush example_env (sampleApps example_provider ! 2))
     = Some (Error ''asset not found'')
   \<and> pushAll_Run example_provider example_env =
     ([Call_RandomStringWithPrefix ''gonut-golang-app-'' 32, Call_assetFunc ''Golang'',
       Call_PushApp ''Golang'' ''gonut-golang-app-xxxxxxxxxxxxxxx'' ''go'' Always,
       Stdout ''Successfully pushed *Golang* sample app in CadetBlue{1 min 30 sec}.\<newline>'',
       Call_RandomStringWithPrefix ''gonut-python-app-'' 32, Call_assetFunc ''Python'',
       Call_PushApp ''Python'' ''gonut-python-app-xxxxxxxxxxxxxxx'' ''python'' Always,
       Stdout ''Successfully pushed *Python* sample app in CadetBlue{1 min 30 sec}.\<newline>'',
       Call_RandomStringWithPrefix ''gonut-php-app-'' 32, Call_assetFunc ''PHP'',
       Call_ExitGonut (Error ''asset not found'')],
      Exited (Error ''asset not found''))
   \<and> snd (pushAll_Run (example_provider\<lparr>PHPSampleApp := example_asset ''php''\<rparr>) example_env)
     = Returned
   \<and> length (fst (pushAll_Run (example_provider\<lparr>PHPSampleApp := example_asset ''php''\<rparr>)
                    example_env)) = 28"
proof -
  let ?apps = "sampleApps example_provider"
  let ?all = "sampleApps (example_provider\<lparr>PHPSampleApp := example_asset ''php''\<rparr>)"
  have split: "?apps = take 2 ?apps @ ?apps ! 2 # drop 3 ?apps"
    by (simp add: sampleApps_def)
  have pre: "\<forall>a\<in>set (take 2 ?apps). snd (runSampleAppPush example_env a) = None"
    by code_simp
  have php: "snd (runSampleAppPush example_env (?apps ! 2)) = Some (Error ''asset not found'')"
    by code_simp
  have trace: "concat (map (\<lambda>a. fst (runSampleAppPush example_env a)) (take 2 ?apps))
           @ fst (runSampleAppPush example_env (?apps ! 2))
           @ [Call_ExitGonut (Error ''asset not found'')]
    = [Call_RandomStringWithPrefix ''gonut-golang-app-'' 32, Call_assetFunc ''Golang'',
       Call_PushApp ''Golang'' ''gonut-golang-app-xxxxxxxxxxxxxxx'' ''go'' Always,
       Stdout ''Successfully pushed *Golang* sample app in CadetBlue{1 min 30 sec}.\<newline>'',
       Call_RandomStringWithPrefix ''gonut-python-app-'' 32, Call_assetFunc ''Python'',
       Call_PushApp ''Python'' ''gonut-python-app-xxxxxxxxxxxxxxx'' ''python'' Always,
       Stdout ''Successfully pushed *Python* sample app in CadetBlue{1 min 30 sec}.\<newline>'',
       Call_RandomStringWithPrefix ''gonut-php-app-'' 32, Call_assetFunc ''PHP'',
       Call_ExitGonut (Error ''asset not found'')]"
    by code_simp
  have stop: "pushAll_Run example_provider example_env =
        (concat (map (\<lambda>a. fst (runSampleAppPush example_env a)) (take 2 ?apps))
           @ fst (runSampleAppPush example_env (?apps ! 2))
           @ [Call_ExitGonut (Error ''asset not found'')], Exited (Error ''asset not found''))"
    using pushAll_stops_at_first_error
      [of example_provider "take 2 ?apps" "?apps ! 2" "drop 3 ?apps" example_env
        "Error ''asset not found''"] split pre php
    by blast
  have all: "\<forall>a\<in>set ?all. snd (runSampleAppPush example_env a) = None"
    by code_simp
  have len: "length (concat (map (\<lambda>a. fst (runSampleAppPush example_env a)) ?all)) = 28"
    by code_simp
  have run: "pushAll_Run (example_provider\<lparr>PHPSampleApp := example_asset ''php''\<rparr>) example_env =
          (concat (map (\<lambda>a. fst (runSampleAppPush example_env a)) ?all), Returned)"
    using pushAll_stops_at_first_error
      [of "example_provider\<lparr>PHPSampleApp := example_asset ''php''\<rparr>" _ _ _ example_env] all
    by blast
  show ?thesis
    using php stop trace run len by simp
qed

lemma Call_PushApp_in_runSampleAppPush:
  assumes "Call_PushApp c n d s \<in> set (fst (runSampleAppPush env app))"
  shows "n = generated_appName env app \<and> c = caption app"
proof -
  obtain cs r where dl: "mapDeleteSetting (deleteSetting env) = (cs, r)"
    by (cases "mapDeleteSetting (deleteSetting env)")
  obtain ot where o: "mapOutputSetting (outputSetting env) = (ot, None)"
    by (cases "mapOutputSetting (outputSetting env)") (simp add: mapOutputSetting_def Let_def split: if_splits)
  show ?thesis
    using assms
    by (auto simp: runSampleAppPush_def generated_appName_def dl o Let_def
        split: prod.splits option.splits sum.splits)
qed

lemma prefix_generated_appName:
  "prefix p (appNamePrefix app) \<Longrightarrow> prefix p (generated_appName env app)"
  by (simp add: generated_appName_def text_RandomStringWithPrefix_def prefix_prefix)

text \<open>
  Claim C9. The \<open>appNamePrefix\<close> of every entry of \<open>sampleApps\<close> begins with
  \<open>GonutAppPrefix\<close> and a hyphen, that is with \<open>gonut-\<close>, and ends with \<open>-app-\<close>; so the name
  that \<open>runSampleAppPush\<close> generates, and every name it hands to \<open>cf.PushApp\<close>, starts with
  \<open>gonut-\<close>.
\<close>

theorem sampleApps_names_start_with_gonut:
  "\<forall>app\<in>set (sampleApps provider).
     prefix (GonutAppPrefix @ ''-'') (appNamePrefix app)
     \<and> prefix ''gonut-'' (appNamePrefix app)
     \<and> suffix ''-app-'' (appNamePrefix app)
     \<and> prefix ''gonut-'' (generated_appName env app)
     \<and> (\<forall>c n d s. Call_PushApp c n d s \<in> set (fst (runSampleAppPush env app)) \<longrightarrow>
           prefix ''gonut-'' n)"
proof
  fix app assume app: "app \<in> set (sampleApps provider)"
  have p: "prefix ''gonut-'' (appNamePrefix app)"
    using app by (auto simp: sampleApps_def GonutAppPrefix_def)
  have s: "suffix ''-app-'' (appNamePrefix app)"
    using app by (auto simp: sampleApps_def GonutAppPrefix_def suffix_to_prefix)
  have g: "prefix ''gonut-'' (generated_appName env app)"
    using p by (rule prefix_generated_appName)
  show "prefix (GonutAppPrefix @ ''-'') (appNamePrefix app)
     \<and> prefix ''gonut-'' (appNamePrefix app)
     \<and> suffix ''-app-'' (appNamePrefix app)
     \<and> prefix ''gonut-'' (generated_appName env app)
     \<and> (\<forall>c n d s. Call_PushApp c n d s \<in> set (fst (runSampleAppPush env app)) \<longrightarrow>
           prefix ''gonut-'' n)"
    using p s g Call_PushApp_in_runSampleAppPush[of _ _ _ _ env app]
    by (auto simp: GonutAppPrefix_def)
qed

theorem sampleApps_names_start_with_gonut_witness:
  "sampleApps example_provider ! 6 \<in> set (sampleApps example_provider)
   \<and> appNamePrefix (sampleApps example_provider ! 6) = ''gonut-ruby-sinatra-app-''
   \<and> prefix ''gonut-'' (appNamePrefix (sampleApps example_provider ! 6))
   \<and> suffix ''-app-'' (appNamePrefix (sampleApps example_provider ! 6))
   \<and> Call_PushApp ''Ruby'' ''gonut-ruby-sinatra-app-xxxxxxxxx'' ''ruby'' Always
        \<in> set (fst (runSampleAppPush example_env (sampleApps example_provider ! 6)))
   \<and> prefix ''gonut-'' ''gonut-ruby-sinatra-app-xxxxxxxxx''"
proof -
  let ?ruby = "sampleApps example_provider ! 6"
  have mem: "?ruby \<in> set (sampleApps example_provider)"
    by (simp add: sampleApps_def)
  have pfx: "appNamePrefix ?ruby = ''gonut-ruby-sinatra-app-''"
    by (simp add: sampleApps_def GonutAppPrefix_def)
  have ev: "Call_PushApp ''Ruby'' ''gonut-ruby-sinatra-app-xxxxxxxxx'' ''ruby'' Always
        \<in> set (fst (runSampleAppPush example_env ?ruby))"
    by code_simp
  have "prefix ''gonut-'' (appNamePrefix ?ruby) \<and> suffix ''-app-'' (appNamePrefix ?ruby)
      \<and> prefix ''gonut-'' ''gonut-ruby-sinatra-app-xxxxxxxxx''"
    using sampleApps_names_start_with_gonut[of example_provider example_env] mem ev
    by blast
  then show ?thesis using mem pfx ev by simp
qed

end
